theory Spec2Isabelle
  imports Main "HOL-Library.Word"
begin

section \<open>SimpleVector: a growable array over an owning buffer\<close>

text \<open>
  A shallow embedding of \<^verbatim>\<open>simple_vector.h\<close>. The class has three fields: the owning
  buffer \<^verbatim>\<open>items_\<close> and the two \<^verbatim>\<open>size_t\<close> counters \<^verbatim>\<open>size_\<close> and \<^verbatim>\<open>capacity_\<close>.
  The buffer is a list with one entry per allocated slot; the counters are 64-bit words,
  so \<^verbatim>\<open>size_ + 1\<close> and \<^verbatim>\<open>capacity_ * 2\<close> wrap as they do in the code. A position
  (\<^verbatim>\<open>Type*\<close>) is the offset of the slot from the start of the buffer. A name cannot
  end in an underscore here, so the fields are \<open>items_m\<close>, \<open>size_m\<close> and \<open>capacity_m\<close>.
\<close>

type_synonym size_t = "64 word"

datatype error = bad_alloc | out_of_range

text \<open>
  A const member function returns a value, throws, or has no defined behaviour (a failed
  \<^verbatim>\<open>assert\<close>, an access outside the buffer).
\<close>

datatype 'r result = Returns 'r | Throws error | Undef

text \<open>
  A mutating member function leaves the object in some state also when it throws: the
  state is part of both outcomes.
\<close>

datatype ('r, 's) outcome = Normal 'r 's | Raised error 's | Undefined

record 'a SimpleVector =
  items_m :: "'a list"
  size_m :: size_t
  capacity_m :: size_t

subsection \<open>The owning buffer\<close>

text \<open>
  The allocator is outside the repository: \<open>avail n\<close> says whether a request for \<open>n\<close>
  slots is satisfied now, and \<open>fresh i\<close> is the content of slot \<open>i\<close> of a new
  allocation, which the code must not rely on.
\<close>

record 'a Allocator =
  avail :: "nat \<Rightarrow> bool"
  fresh :: "nat \<Rightarrow> 'a"

text \<open>
  Modelled from the spec: \<^verbatim>\<open>array_ptr.h\<close> is missing. \<^verbatim>\<open>ArrayPtr(size)\<close> allocates
  storage for \<open>size\<close> elements; size 0 yields the empty buffer and never calls the
  allocator; it fails with the allocation error (\<open>None\<close>) if the allocator cannot satisfy
  the request.
\<close>

definition ArrayPtr :: "'a Allocator \<Rightarrow> nat \<Rightarrow> 'a list option" where
  "ArrayPtr A n =
     (if n = 0 then Some []
      else if avail A n then Some (map (fresh A) [0..<n])
      else None)"

text \<open>
  Modelled from the spec: \<^verbatim>\<open>ArrayPtr::operator[]\<close> returns slot \<open>index\<close>; an index
  outside the allocation is a contract violation (\<open>None\<close>).
\<close>

definition ArrayPtr_at :: "'a list \<Rightarrow> nat \<Rightarrow> 'a option" where
  "ArrayPtr_at buf i = (if i < length buf then Some (buf ! i) else None)"

subsection \<open>The standard algorithms, slot by slot\<close>

text \<open>
  \<^verbatim>\<open>std::copy(first, last, d_first)\<close> and \<^verbatim>\<open>std::move(first, last, d_first)\<close> between
  two buffers: \<^verbatim>\<open>while (first != last) *d_first++ = *first++;\<close>. A slot outside either
  buffer, or the end of the range before its start, has no defined behaviour. An element
  that was moved from keeps its value in the model (exact for \<^verbatim>\<open>int\<close>); the code
  never reads such a slot again before writing it.
\<close>

fun copy_loop :: "'a list \<Rightarrow> nat \<Rightarrow> nat \<Rightarrow> 'a list \<Rightarrow> nat \<Rightarrow> 'a list option" where
  "copy_loop src first 0 dst d = Some dst"
| "copy_loop src first (Suc n) dst d =
     (if first < length src \<and> d < length dst
      then copy_loop src (Suc first) n (dst[d := src ! first]) (Suc d)
      else None)"

definition std_copy :: "'a list \<Rightarrow> nat \<Rightarrow> nat \<Rightarrow> 'a list \<Rightarrow> nat \<Rightarrow> 'a list option" where
  "std_copy src first lastp dst d =
     (if first \<le> lastp then copy_loop src first (lastp - first) dst d else None)"

text \<open>
  The same loop when source and destination are the same buffer (\<^verbatim>\<open>Erase\<close>): each read
  sees the writes before it.
\<close>

fun move_loop :: "'a list \<Rightarrow> nat \<Rightarrow> nat \<Rightarrow> nat \<Rightarrow> 'a list option" where
  "move_loop buf first 0 d = Some buf"
| "move_loop buf first (Suc n) d =
     (if first < length buf \<and> d < length buf
      then move_loop (buf[d := buf ! first]) (Suc first) n (Suc d)
      else None)"

definition std_move_within :: "'a list \<Rightarrow> nat \<Rightarrow> nat \<Rightarrow> nat \<Rightarrow> 'a list option" where
  "std_move_within buf first lastp d =
     (if first \<le> lastp then move_loop buf first (lastp - first) d else None)"

text \<open>
  \<^verbatim>\<open>std::copy_backward(first, last, d_last)\<close> and \<^verbatim>\<open>std::move_backward\<close> inside one
  buffer: \<^verbatim>\<open>while (first != last) *(--d_last) = *(--last);\<close>.
\<close>

fun backward_loop :: "'a list \<Rightarrow> nat \<Rightarrow> nat \<Rightarrow> nat \<Rightarrow> 'a list option" where
  "backward_loop buf lastp 0 d_last = Some buf"
| "backward_loop buf lastp (Suc n) d_last =
     (if 0 < lastp \<and> lastp \<le> length buf \<and> 0 < d_last \<and> d_last \<le> length buf
      then backward_loop (buf[d_last - 1 := buf ! (lastp - 1)]) (lastp - 1) n (d_last - 1)
      else None)"

definition std_copy_backward :: "'a list \<Rightarrow> nat \<Rightarrow> nat \<Rightarrow> nat \<Rightarrow> 'a list option" where
  "std_copy_backward buf first lastp d_last =
     (if first \<le> lastp then backward_loop buf lastp (lastp - first) d_last else None)"

text \<open>\<^verbatim>\<open>std::fill(first, last, value)\<close>: \<^verbatim>\<open>for (; first != last; ++first) *first = value;\<close>.\<close>

fun fill_loop :: "'a list \<Rightarrow> nat \<Rightarrow> nat \<Rightarrow> 'a \<Rightarrow> 'a list option" where
  "fill_loop buf first 0 v = Some buf"
| "fill_loop buf first (Suc n) v =
     (if first < length buf then fill_loop (buf[first := v]) (Suc first) n v else None)"

definition std_fill :: "'a list \<Rightarrow> nat \<Rightarrow> nat \<Rightarrow> 'a \<Rightarrow> 'a list option" where
  "std_fill buf first lastp v =
     (if first \<le> lastp then fill_loop buf first (lastp - first) v else None)"

text \<open>
  \<^verbatim>\<open>std::lexicographical_compare\<close> over two ranges, with the elements' \<open><\<close>.
\<close>

fun lexicographical_compare :: "('a::ord) list \<Rightarrow> 'a list \<Rightarrow> bool" where
  "lexicographical_compare [] [] = False"
| "lexicographical_compare [] (y # ys) = True"
| "lexicographical_compare (x # xs) [] = False"
| "lexicographical_compare (x # xs) (y # ys) =
     (if x < y then True
      else if y < x then False
      else lexicographical_compare xs ys)"

subsection \<open>Constructors\<close>

text \<open>\<^verbatim>\<open>SimpleVector() noexcept = default\<close>\<close>

definition SimpleVector_default :: "'a SimpleVector" where
  "SimpleVector_default = \<lparr>items_m = [], size_m = 0, capacity_m = 0\<rparr>"

text \<open>\<^verbatim>\<open>SimpleVector(size_t size, const Type& value)\<close>\<close>

definition SimpleVector_fill :: "'a Allocator \<Rightarrow> size_t \<Rightarrow> 'a \<Rightarrow> 'a SimpleVector result" where
  "SimpleVector_fill A n v =
     (case ArrayPtr A (unat n) of
        None \<Rightarrow> Throws bad_alloc
      | Some items \<Rightarrow>
          (case std_fill items 0 (unat n) v of
             None \<Rightarrow> Undef
           | Some buf \<Rightarrow> Returns \<lparr>items_m = buf, size_m = n, capacity_m = n\<rparr>))"

text \<open>
  \<^verbatim>\<open>SimpleVector(std::initializer_list<Type> init)\<close>; \<^verbatim>\<open>init.size()\<close> is a
  \<^verbatim>\<open>size_t\<close>.
\<close>

definition SimpleVector_init :: "'a Allocator \<Rightarrow> 'a list \<Rightarrow> 'a SimpleVector result" where
  "SimpleVector_init A init =
     (case ArrayPtr A (length init) of
        None \<Rightarrow> Throws bad_alloc
      | Some items \<Rightarrow>
          (case std_copy init 0 (length init) items 0 of
             None \<Rightarrow> Undef
           | Some buf \<Rightarrow>
               Returns \<lparr>items_m = buf, size_m = of_nat (length init),
                        capacity_m = of_nat (length init)\<rparr>))"

text \<open>\<^verbatim>\<open>SimpleVector(ReserveProxyObj reserved)\<close>\<close>

definition SimpleVector_reserved :: "'a Allocator \<Rightarrow> size_t \<Rightarrow> 'a SimpleVector result" where
  "SimpleVector_reserved A n =
     (case ArrayPtr A (unat n) of
        None \<Rightarrow> Throws bad_alloc
      | Some items \<Rightarrow> Returns \<lparr>items_m = items, size_m = 0, capacity_m = n\<rparr>)"

text \<open>\<^verbatim>\<open>SimpleVector(const SimpleVector& other)\<close>\<close>

definition SimpleVector_copy :: "'a Allocator \<Rightarrow> 'a SimpleVector \<Rightarrow> 'a SimpleVector result" where
  "SimpleVector_copy A other =
     (case ArrayPtr A (unat (size_m other)) of
        None \<Rightarrow> Throws bad_alloc
      | Some items \<Rightarrow>
          (case std_copy (items_m other) 0 (unat (size_m other)) items 0 of
             None \<Rightarrow> Undef
           | Some buf \<Rightarrow>
               Returns \<lparr>items_m = buf, size_m = size_m other, capacity_m = size_m other\<rparr>))"

subsection \<open>Observers\<close>

definition GetSize :: "'a SimpleVector \<Rightarrow> size_t" where
  "GetSize v = size_m v"

definition GetCapacity :: "'a SimpleVector \<Rightarrow> size_t" where
  "GetCapacity v = capacity_m v"

definition IsEmpty :: "'a SimpleVector \<Rightarrow> bool" where
  "IsEmpty v = (size_m v = 0)"

text \<open>\<^verbatim>\<open>operator[]\<close>: \<^verbatim>\<open>assert(index < size_); return items_[index];\<close>\<close>

definition subscript :: "'a SimpleVector \<Rightarrow> size_t \<Rightarrow> 'a result" where
  "subscript v index =
     (if index < size_m v
      then (case ArrayPtr_at (items_m v) (unat index) of
              None \<Rightarrow> Undef
            | Some x \<Rightarrow> Returns x)
      else Undef)"

text \<open>\<^verbatim>\<open>At\<close>: \<^verbatim>\<open>if (index >= size_) throw std::out_of_range{...}; return items_[index];\<close>\<close>

definition At :: "'a SimpleVector \<Rightarrow> size_t \<Rightarrow> 'a result" where
  "At v index =
     (if index \<ge> size_m v then Throws out_of_range
      else (case ArrayPtr_at (items_m v) (unat index) of
              None \<Rightarrow> Undef
            | Some x \<Rightarrow> Returns x))"

text \<open>The live range \<^verbatim>\<open>[begin(), end())\<close>: the first \<^verbatim>\<open>size_\<close> slots.\<close>

definition elems :: "'a SimpleVector \<Rightarrow> 'a list" where
  "elems v = take (unat (size_m v)) (items_m v)"

subsection \<open>Capacity management\<close>

text \<open>
  \<^verbatim>\<open>ReallocateCopy(new_capacity) const\<close>: a new buffer of \<open>new_capacity\<close> slots that
  holds the first \<^verbatim>\<open>min(new_capacity, size_)\<close> elements.
\<close>

definition ReallocateCopy :: "'a Allocator \<Rightarrow> size_t \<Rightarrow> 'a SimpleVector \<Rightarrow> 'a list result" where
  "ReallocateCopy A new_capacity v =
     (case ArrayPtr A (unat new_capacity) of
        None \<Rightarrow> Throws bad_alloc
      | Some new_items \<Rightarrow>
          (let copy_size = min new_capacity (size_m v) in
           case std_copy (items_m v) 0 (unat copy_size) new_items 0 of
             None \<Rightarrow> Undef
           | Some buf \<Rightarrow> Returns buf))"

definition Reserve :: "'a Allocator \<Rightarrow> size_t \<Rightarrow> 'a SimpleVector \<Rightarrow> (unit, 'a SimpleVector) outcome" where
  "Reserve A new_capacity v =
     (if capacity_m v < new_capacity then
        (case ReallocateCopy A new_capacity v of
           Throws e \<Rightarrow> Raised e v
         | Undef \<Rightarrow> Undefined
         | Returns new_items \<Rightarrow>
             Normal () (v\<lparr>items_m := new_items, capacity_m := new_capacity\<rparr>))
      else Normal () v)"

definition Clear :: "'a SimpleVector \<Rightarrow> 'a SimpleVector" where
  "Clear v = v\<lparr>size_m := 0\<rparr>"

text \<open>\<^verbatim>\<open>Resize(new_size)\<close>; \<open>dflt\<close> is \<^verbatim>\<open>Type{}\<close>.\<close>

definition Resize :: "'a Allocator \<Rightarrow> 'a \<Rightarrow> size_t \<Rightarrow> 'a SimpleVector \<Rightarrow> (unit, 'a SimpleVector) outcome" where
  "Resize A dflt new_size v =
     (if new_size > capacity_m v then
        (let new_capacity = max (capacity_m v * 2) new_size in
         case ReallocateCopy A new_capacity v of
           Throws e \<Rightarrow> Raised e v
         | Undef \<Rightarrow> Undefined
         | Returns new_items \<Rightarrow>
             (case std_fill new_items (unat (size_m v)) (unat new_size) dflt of
                None \<Rightarrow> Undefined
              | Some filled \<Rightarrow>
                  Normal () (v\<lparr>items_m := filled, capacity_m := new_capacity,
                               size_m := new_size\<rparr>)))
      else if new_size > size_m v then
        (case std_fill (items_m v) (unat (size_m v)) (unat new_size) dflt of
           None \<Rightarrow> Undefined
         | Some filled \<Rightarrow> Normal () (v\<lparr>items_m := filled, size_m := new_size\<rparr>))
      else Normal () (v\<lparr>size_m := new_size\<rparr>))"

subsection \<open>Insertion and removal\<close>

text \<open>
  \<^verbatim>\<open>PushBack(const Type& item)\<close> and \<^verbatim>\<open>PushBack(Type&& item)\<close> have the same body up
  to \<^verbatim>\<open>std::move(item)\<close>. In the growing branch \<^verbatim>\<open>capacity_\<close> is assigned before
  \<^verbatim>\<open>ReallocateCopy\<close> is called, so that is the state an exception leaves behind.
\<close>

definition PushBack :: "'a Allocator \<Rightarrow> 'a \<Rightarrow> 'a SimpleVector \<Rightarrow> (unit, 'a SimpleVector) outcome" where
  "PushBack A item v =
     (let new_size = size_m v + 1 in
      if capacity_m v < new_size then
        (let v1 = v\<lparr>capacity_m := max (capacity_m v * 2) new_size\<rparr> in
         case ReallocateCopy A (capacity_m v1) v1 of
           Throws e \<Rightarrow> Raised e v1
         | Undef \<Rightarrow> Undefined
         | Returns new_items \<Rightarrow>
             if unat (size_m v1) < length new_items
             then Normal () (v1\<lparr>items_m := new_items[unat (size_m v1) := item],
                                size_m := new_size\<rparr>)
             else Undefined)
      else if unat (size_m v) < length (items_m v)
      then Normal () (v\<lparr>items_m := (items_m v)[unat (size_m v) := item], size_m := new_size\<rparr>)
      else Undefined)"

text \<open>
  \<^verbatim>\<open>Insert(ConstIterator pos, const Type& value)\<close>; the overload taking \<^verbatim>\<open>Type&&\<close>
  differs only in moving instead of copying. The result is the position of the inserted
  element.
\<close>

definition Insert :: "'a Allocator \<Rightarrow> nat \<Rightarrow> 'a \<Rightarrow> 'a SimpleVector \<Rightarrow> (nat, 'a SimpleVector) outcome" where
  "Insert A pos val v =
     (if \<not> pos \<le> unat (size_m v) then Undefined
      else
        (let new_pos = pos; new_size = size_m v + 1 in
         if new_size \<le> capacity_m v then
           (case std_copy_backward (items_m v) pos (unat (size_m v)) (unat (size_m v) + 1) of
              None \<Rightarrow> Undefined
            | Some shifted \<Rightarrow>
                if new_pos < length shifted
                then Normal new_pos (v\<lparr>items_m := shifted[new_pos := val], size_m := new_size\<rparr>)
                else Undefined)
         else
           (let v1 = v\<lparr>capacity_m := max (capacity_m v * 2) new_size\<rparr> in
            case ArrayPtr A (unat (capacity_m v1)) of
              None \<Rightarrow> Raised bad_alloc v1
            | Some items \<Rightarrow>
                (case std_copy (items_m v1) 0 pos items 0 of
                   None \<Rightarrow> Undefined
                 | Some items1 \<Rightarrow>
                     if new_pos < length items1
                     then (case std_copy (items_m v1) pos (unat (size_m v1))
                                  (items1[new_pos := val]) (new_pos + 1) of
                             None \<Rightarrow> Undefined
                           | Some items2 \<Rightarrow>
                               Normal new_pos (v1\<lparr>items_m := items2, size_m := new_size\<rparr>))
                     else Undefined))))"

text \<open>\<^verbatim>\<open>PopBack()\<close>: \<^verbatim>\<open>assert(!IsEmpty()); size_--;\<close>\<close>

definition PopBack :: "'a SimpleVector \<Rightarrow> (unit, 'a SimpleVector) outcome" where
  "PopBack v = (if IsEmpty v then Undefined else Normal () (v\<lparr>size_m := size_m v - 1\<rparr>))"

text \<open>\<^verbatim>\<open>Erase(ConstIterator pos)\<close>; the result is the position of the erased slot.\<close>

definition Erase :: "nat \<Rightarrow> 'a SimpleVector \<Rightarrow> (nat, 'a SimpleVector) outcome" where
  "Erase pos v =
     (if \<not> pos < unat (size_m v) then Undefined
      else
        (let change_pos = pos in
         case std_move_within (items_m v) (change_pos + 1) (unat (size_m v)) change_pos of
           None \<Rightarrow> Undefined
         | Some shifted \<Rightarrow>
             Normal change_pos (v\<lparr>items_m := shifted, size_m := size_m v - 1\<rparr>)))"

subsection \<open>Swap and copy assignment\<close>

text \<open>
  \<^verbatim>\<open>swap(SimpleVector& other)\<close> exchanges the three fields of two objects; the pair is
  \<^verbatim>\<open>*this\<close> and \<open>other\<close> afterwards.
\<close>

definition swap :: "'a SimpleVector \<Rightarrow> 'a SimpleVector \<Rightarrow> 'a SimpleVector \<times> 'a SimpleVector" where
  "swap this other =
     (this\<lparr>items_m := items_m other, size_m := size_m other, capacity_m := capacity_m other\<rparr>,
      other\<lparr>items_m := items_m this, size_m := size_m this, capacity_m := capacity_m this\<rparr>)"

text \<open>
  \<^verbatim>\<open>operator=(const SimpleVector& rhs)\<close> compares the addresses of its two operands, so
  it is modelled on a store of objects: \<open>this\<close> and \<open>rhs\<close> are addresses. The local
  \<^verbatim>\<open>rhs_copy\<close> is swapped with \<^verbatim>\<open>*this\<close> and destroyed.
\<close>

type_synonym 'a store = "nat \<Rightarrow> 'a SimpleVector"

definition copy_assign :: "'a Allocator \<Rightarrow> nat \<Rightarrow> nat \<Rightarrow> 'a store \<Rightarrow> (unit, 'a store) outcome" where
  "copy_assign A this rhs \<sigma> =
     (if rhs \<noteq> this then
        (let \<sigma>1 = (if IsEmpty (\<sigma> rhs) then \<sigma>(this := Clear (\<sigma> this)) else \<sigma>) in
         case SimpleVector_copy A (\<sigma>1 rhs) of
           Throws e \<Rightarrow> Raised e \<sigma>1
         | Undef \<Rightarrow> Undefined
         | Returns rhs_copy \<Rightarrow> Normal () (\<sigma>1(this := fst (swap (\<sigma>1 this) rhs_copy))))
      else Normal () \<sigma>)"

subsection \<open>Comparisons\<close>

definition less_vec :: "('a::ord) SimpleVector \<Rightarrow> 'a SimpleVector \<Rightarrow> bool" where
  "less_vec lhs rhs = lexicographical_compare (elems lhs) (elems rhs)"

definition less_eq_vec :: "('a::ord) SimpleVector \<Rightarrow> 'a SimpleVector \<Rightarrow> bool" where
  "less_eq_vec lhs rhs = (\<not> less_vec rhs lhs)"

definition greater_vec :: "('a::ord) SimpleVector \<Rightarrow> 'a SimpleVector \<Rightarrow> bool" where
  "greater_vec lhs rhs = less_vec rhs lhs"

definition greater_eq_vec :: "('a::ord) SimpleVector \<Rightarrow> 'a SimpleVector \<Rightarrow> bool" where
  "greater_eq_vec lhs rhs = (\<not> greater_vec lhs rhs)"

subsection \<open>Consistent states\<close>

text \<open>
  The class invariant: the buffer has exactly \<^verbatim>\<open>capacity_\<close> slots and
  \<^verbatim>\<open>size_ <= capacity_\<close>.
\<close>

definition consistent :: "'a SimpleVector \<Rightarrow> bool" where
  "consistent v \<longleftrightarrow> length (items_m v) = unat (capacity_m v) \<and> size_m v \<le> capacity_m v"

subsection \<open>Example objects\<close>

text \<open>An allocator that satisfies every request; its new slots hold \<open>- 1\<close>.\<close>

definition plenty :: "int Allocator" where
  "plenty = \<lparr>avail = (\<lambda>n. True), fresh = (\<lambda>i. - 1)\<rparr>"

text \<open>An allocator that has room for at most four elements.\<close>

definition tight :: "int Allocator" where
  "tight = \<lparr>avail = (\<lambda>n. n \<le> 4), fresh = (\<lambda>i. - 1)\<rparr>"

text \<open>The containers \<open>{1,2,3}\<close> and \<open>{7}\<close>, as their list constructor builds them.\<close>

definition v123 :: "int SimpleVector" where
  "v123 = \<lparr>items_m = [1, 2, 3], size_m = 3, capacity_m = 3\<rparr>"

definition v7 :: "int SimpleVector" where
  "v7 = \<lparr>items_m = [7], size_m = 1, capacity_m = 1\<rparr>"

text \<open>A store with \<open>{1,2,3}\<close> at address 0 and \<open>{7}\<close> everywhere else.\<close>

definition two_vectors :: "int store" where
  "two_vectors a = (if a = 0 then v123 else v7)"

subsection \<open>Sequences of mutations\<close>

text \<open>
  The member functions that change one container without taking another one as operand,
  as a datatype, so that a sequence of calls is a list. Each call comes with the allocator
  as it is at that moment.
\<close>

datatype 'a mutation =
    Reserve_call size_t
  | Resize_call size_t
  | Clear_call
  | PushBack_call 'a
  | Insert_call nat 'a
  | Erase_call nat
  | PopBack_call

fun mutate :: "'a Allocator \<Rightarrow> 'a \<Rightarrow> 'a mutation \<Rightarrow> 'a SimpleVector \<Rightarrow> (unit, 'a SimpleVector) outcome" where
  "mutate A dflt (Reserve_call n) v = Reserve A n v"
| "mutate A dflt (Resize_call n) v = Resize A dflt n v"
| "mutate A dflt Clear_call v = Normal () (Clear v)"
| "mutate A dflt (PushBack_call x) v = PushBack A x v"
| "mutate A dflt (Insert_call pos x) v =
     (case Insert A pos x v of
        Normal _ v' \<Rightarrow> Normal () v'
      | Raised e v' \<Rightarrow> Raised e v'
      | Undefined \<Rightarrow> Undefined)"
| "mutate A dflt (Erase_call pos) v =
     (case Erase pos v of
        Normal _ v' \<Rightarrow> Normal () v'
      | Raised e v' \<Rightarrow> Raised e v'
      | Undefined \<Rightarrow> Undefined)"
| "mutate A dflt PopBack_call v = PopBack v"

text \<open>
  The capacities observed along a sequence of calls: before the first call and after each
  call, up to the first call that throws (observed too) or has no defined behaviour.
\<close>

fun capacities :: "'a \<Rightarrow> ('a Allocator \<times> 'a mutation) list \<Rightarrow> 'a SimpleVector \<Rightarrow> size_t list" where
  "capacities dflt [] v = [capacity_m v]"
| "capacities dflt ((A, m) # ms) v =
     capacity_m v #
       (case mutate A dflt m v of
          Normal _ v' \<Rightarrow> capacities dflt ms v'
        | Raised e v' \<Rightarrow> [capacity_m v']
        | Undefined \<Rightarrow> [])"

section \<open>The loops in closed form\<close>

text \<open>
  Inside the buffers each loop is total, and its result is the destination with one
  segment replaced.
\<close>

lemma copy_loop_eq:
  "first + n \<le> length src \<Longrightarrow> d + n \<le> length dst \<Longrightarrow>
   copy_loop src first n dst d = Some (take d dst @ take n (drop first src) @ drop (d + n) dst)"
proof (induction n arbitrary: first dst d)
  case 0
  then show ?case by simp
next
  case (Suc n)
  then show ?case
    by (simp add: take_Suc_conv_app_nth Cons_nth_drop_Suc [symmetric] drop_Suc [symmetric])
qed

lemma fill_loop_eq:
  "first + n \<le> length buf \<Longrightarrow>
   fill_loop buf first n v = Some (take first buf @ replicate n v @ drop (first + n) buf)"
proof (induction n arbitrary: first buf)
  case 0
  then show ?case by simp
next
  case (Suc n)
  then show ?case
    by (simp add: take_Suc_conv_app_nth replicate_app_Cons_same)
qed

text \<open>Copying forwards inside one buffer is safe when the destination is not after the source.\<close>

lemma move_loop_eq:
  "d \<le> first \<Longrightarrow> first + n \<le> length buf \<Longrightarrow>
   move_loop buf first n d = Some (take d buf @ take n (drop first buf) @ drop (d + n) buf)"
proof (induction n arbitrary: first buf d)
  case 0
  then show ?case by simp
next
  case (Suc n)
  then show ?case
    by (simp add: take_Suc_conv_app_nth Cons_nth_drop_Suc [symmetric])
qed

text \<open>Copying backwards inside one buffer is safe when the destination is not before the source.\<close>

lemma backward_loop_eq:
  "n \<le> lastp \<Longrightarrow> lastp \<le> d_last \<Longrightarrow> d_last \<le> length buf \<Longrightarrow>
   backward_loop buf lastp n d_last =
     Some (take (d_last - n) buf @ take n (drop (lastp - n) buf) @ drop d_last buf)"
proof (induction n arbitrary: lastp buf d_last)
  case 0
  then show ?case by simp
next
  case (Suc n)
  define buf' where "buf' = buf[d_last - 1 := buf ! (lastp - 1)]"
  define k where "k = lastp - Suc n"
  have len: "length buf' = length buf"
    by (simp add: buf'_def)
  have lp: "lastp - 1 = k + n" "lastp - 1 - n = k" "0 < lastp" "0 < d_last" "k + n < length buf"
    using Suc.prems by (simp_all add: k_def)
  have ih: "backward_loop buf' (lastp - 1) n (d_last - 1) =
      Some (take (d_last - 1 - n) buf' @ take n (drop (lastp - 1 - n) buf') @ drop (d_last - 1) buf')"
    using Suc.prems by (intro Suc.IH) (simp_all add: len)
  have a: "take (d_last - 1 - n) buf' = take (d_last - Suc n) buf"
    by (simp add: buf'_def)
  have "take n (drop k buf') = drop k (take (k + n) buf')"
    by (simp add: drop_take)
  also have "\<dots> = drop k (take (k + n) buf)"
    using Suc.prems lp by (simp add: buf'_def)
  also have "\<dots> = take n (drop k buf)"
    by (simp add: drop_take)
  finally have b: "take n (drop k buf') = take n (drop k buf)" .
  have c: "drop (d_last - 1) buf' = buf ! (k + n) # drop d_last buf"
  proof -
    have "d_last - 1 < length buf'"
      using Suc.prems lp by (simp add: len)
    then have "drop (d_last - 1) buf' = buf' ! (d_last - 1) # drop (Suc (d_last - 1)) buf'"
      by (simp add: Cons_nth_drop_Suc)
    then show ?thesis
      using Suc.prems lp by (simp add: buf'_def)
  qed
  have d: "take (Suc n) (drop k buf) = take n (drop k buf) @ [buf ! (k + n)]"
    using lp by (simp add: take_Suc_conv_app_nth)
  have "backward_loop buf lastp (Suc n) d_last = backward_loop buf' (lastp - 1) n (d_last - 1)"
    using Suc.prems lp by (simp add: buf'_def)
  also have "\<dots> = Some (take (d_last - Suc n) buf @ take n (drop k buf) @ buf ! (k + n) # drop d_last buf)"
    unfolding ih a lp(2) b c ..
  also have "\<dots> = Some (take (d_last - Suc n) buf @ take (Suc n) (drop k buf) @ drop d_last buf)"
    unfolding d by simp
  finally show ?case
    unfolding k_def .
qed

lemma std_copy_eq:
  "first \<le> lastp \<Longrightarrow> lastp \<le> length src \<Longrightarrow> d + (lastp - first) \<le> length dst \<Longrightarrow>
   std_copy src first lastp dst d =
     Some (take d dst @ take (lastp - first) (drop first src) @ drop (d + (lastp - first)) dst)"
  by (simp add: std_copy_def copy_loop_eq)

lemma std_fill_eq:
  "first \<le> lastp \<Longrightarrow> lastp \<le> length buf \<Longrightarrow>
   std_fill buf first lastp v =
     Some (take first buf @ replicate (lastp - first) v @ drop lastp buf)"
  by (simp add: std_fill_def fill_loop_eq)

lemma std_move_within_eq:
  "d \<le> first \<Longrightarrow> first \<le> lastp \<Longrightarrow> lastp \<le> length buf \<Longrightarrow>
   std_move_within buf first lastp d =
     Some (take d buf @ take (lastp - first) (drop first buf) @ drop (d + (lastp - first)) buf)"
  by (simp add: std_move_within_def move_loop_eq)

lemma std_copy_backward_eq:
  "first \<le> lastp \<Longrightarrow> lastp \<le> d_last \<Longrightarrow> d_last \<le> length buf \<Longrightarrow>
   std_copy_backward buf first lastp d_last =
     Some (take (d_last - (lastp - first)) buf @ take (lastp - first) (drop first buf)
           @ drop d_last buf)"
  by (simp add: std_copy_backward_def backward_loop_eq)

lemma ArrayPtr_ok:
  "n = 0 \<or> avail A n \<Longrightarrow> ArrayPtr A n = Some (map (fresh A) [0..<n])"
  by (auto simp: ArrayPtr_def)

text \<open>An element below \<^verbatim>\<open>size_\<close> lies inside the buffer of a consistent vector.\<close>

lemma consistent_size_le: "consistent v \<Longrightarrow> unat (size_m v) \<le> length (items_m v)"
  by (simp add: consistent_def word_le_nat_alt)

lemma consistent_index: "consistent v \<Longrightarrow> index < size_m v \<Longrightarrow> unat index < length (items_m v)"
  by (simp add: consistent_def word_le_nat_alt word_less_nat_alt)

section \<open>Element access\<close>

text \<open>
  C8: on a consistent container, \<open>At index\<close> throws \<open>out_of_range\<close> exactly when
  \<open>index \<ge> size\<close>, and for \<open>index < size\<close> it returns the element in slot \<open>index\<close>.
\<close>

theorem At_checked:
  "consistent v \<Longrightarrow>
     (At v index = Throws out_of_range \<longleftrightarrow> size_m v \<le> index) \<and>
     (index < size_m v \<longrightarrow> At v index = Returns (items_m v ! unat index))"
  using consistent_index [of v index]
  by (auto simp: At_def ArrayPtr_at_def)

text \<open>The scenario of C8: \<open>At 3\<close> on the container \<open>{1,2,3}\<close> of size 3 throws.\<close>

theorem At_checked_witness:
  "consistent \<lparr>items_m = [1, 2, 3 :: int], size_m = 3, capacity_m = 3\<rparr> \<and>
   At \<lparr>items_m = [1, 2, 3 :: int], size_m = 3, capacity_m = 3\<rparr> 3 = Throws out_of_range \<and>
   At \<lparr>items_m = [1, 2, 3 :: int], size_m = 3, capacity_m = 3\<rparr> 2 = Returns 3"
proof -
  have c: "consistent \<lparr>items_m = [1, 2, 3 :: int], size_m = 3, capacity_m = 3\<rparr>"
    by (simp add: consistent_def)
  show ?thesis
    using c At_checked [OF c, of 3] At_checked [OF c, of 2] by simp
qed

text \<open>
  C10: for an index below the size of a consistent container, \<open>At\<close> and \<open>operator[]\<close>
  return the same element, the one in slot \<open>index\<close>.
\<close>

theorem At_subscript_agree:
  "consistent v \<Longrightarrow> index < size_m v \<Longrightarrow>
     At v index = Returns (items_m v ! unat index) \<and>
     subscript v index = Returns (items_m v ! unat index)"
  using consistent_index [of v index]
  by (auto simp: At_def subscript_def ArrayPtr_at_def)

theorem At_subscript_agree_witness:
  "consistent \<lparr>items_m = [1, 2, 3 :: int], size_m = 3, capacity_m = 3\<rparr> \<and>
   (1 :: size_t) < 3 \<and>
   At \<lparr>items_m = [1, 2, 3 :: int], size_m = 3, capacity_m = 3\<rparr> 1 = Returns 2 \<and>
   subscript \<lparr>items_m = [1, 2, 3 :: int], size_m = 3, capacity_m = 3\<rparr> 1 = Returns 2"
proof -
  have c: "consistent \<lparr>items_m = [1, 2, 3 :: int], size_m = 3, capacity_m = 3\<rparr>"
    by (simp add: consistent_def)
  have i: "(1 :: size_t) < 3"
    by simp
  show ?thesis
    using c i At_subscript_agree [OF c, of 1] by simp
qed

section \<open>Copy assignment to itself\<close>

text \<open>
  C9: assigning a container to itself returns without touching the store, so its size,
  capacity and elements are what they were.
\<close>

theorem copy_assign_self:
  "copy_assign A a a \<sigma> = Normal () \<sigma>"
  by (simp add: copy_assign_def)

section \<open>Ordering\<close>

text \<open>
  C7: \<^verbatim>\<open>operator>=\<close> is written \<^verbatim>\<open>!(lhs > rhs)\<close>, which is \<open>\<le>\<close>: for
  \<open>{1,2}\<close> and \<open>{1,3}\<close> both \<open>{1,2} < {1,3}\<close> and \<open>{1,2} >= {1,3}\<close> evaluate to true.
\<close>

theorem greater_eq_vec_wrong:
  "less_vec \<lparr>items_m = [1, 2 :: int], size_m = 2, capacity_m = 2\<rparr>
            \<lparr>items_m = [1, 3], size_m = 2, capacity_m = 2\<rparr> \<and>
   greater_eq_vec \<lparr>items_m = [1, 2 :: int], size_m = 2, capacity_m = 2\<rparr>
                  \<lparr>items_m = [1, 3], size_m = 2, capacity_m = 2\<rparr>"
  by (simp add: less_vec_def greater_eq_vec_def greater_vec_def elems_def)

section \<open>The orderings that are right\<close>

text \<open>
  \<^verbatim>\<open>operator<\<close> is the lexicographic order of the element sequences, and the three
  orderings of the specification hold.
\<close>

lemma lexicographical_compare_lexord:
  "lexicographical_compare xs ys \<longleftrightarrow> (xs, ys) \<in> lexord {(a, b). a < b}"
  for xs ys :: "('a::linorder) list"
  by (induction xs ys rule: lexicographical_compare.induct) auto

lemma less_vec_examples:
  "less_vec \<lparr>items_m = [1, 2 :: int], size_m = 2, capacity_m = 2\<rparr> v123"
  "less_vec v123 \<lparr>items_m = [1, 3], size_m = 2, capacity_m = 2\<rparr>"
  "less_vec \<lparr>items_m = [1, 2 :: int], size_m = 2, capacity_m = 2\<rparr>
            \<lparr>items_m = [1, 3], size_m = 2, capacity_m = 2\<rparr>"
  by (simp_all add: less_vec_def elems_def v123_def)

lemma less_eq_vec_standard: "less_eq_vec lhs rhs \<longleftrightarrow> \<not> less_vec rhs lhs"
  by (simp add: less_eq_vec_def)

lemma greater_vec_standard: "greater_vec lhs rhs \<longleftrightarrow> less_vec rhs lhs"
  by (simp add: greater_vec_def)

text \<open>\<^verbatim>\<open>operator>=\<close> is \<^verbatim>\<open>operator<=\<close>, not the negation of \<^verbatim>\<open>operator<\<close>.\<close>

lemma greater_eq_vec_is_less_eq: "greater_eq_vec lhs rhs \<longleftrightarrow> less_eq_vec lhs rhs"
  by (simp add: greater_eq_vec_def greater_vec_def less_eq_vec_def)

section \<open>The counters\<close>

lemma unat_succ: "x + 1 \<noteq> 0 \<Longrightarrow> unat (x + 1) = Suc (unat x)" for x :: size_t
  using unatSuc [of x] by (simp add: add.commute)

lemma less_succ: "x + 1 \<noteq> 0 \<Longrightarrow> x < x + 1" for x :: size_t
  by (simp add: word_less_nat_alt unat_succ)

lemma succ_below: "x < c \<Longrightarrow> x + 1 \<noteq> 0 \<and> x + 1 \<le> c" for x c :: size_t
proof
  assume a: "x < c"
  show "x + 1 \<noteq> 0"
  proof
    assume "x + 1 = 0"
    then have "x = - 1"
      by (simp add: eq_neg_iff_add_eq_0)
    then show False
      using a by simp
  qed
  show "x + 1 \<le> c"
    using a by (rule inc_le)
qed

lemma grown_capacity:
  "c < n \<Longrightarrow> c < max (c * 2) n \<and> n \<le> max (c * 2) n" for c n :: size_t
  using less_le_trans [of c n "max (c * 2) n"] by simp

section \<open>Reallocation\<close>

lemma ReallocateCopy_ok:
  assumes "consistent v" and "size_m v \<le> new_capacity"
    and "unat new_capacity = 0 \<or> avail A (unat new_capacity)"
  shows "ReallocateCopy A new_capacity v =
           Returns (elems v @ drop (unat (size_m v)) (map (fresh A) [0..<unat new_capacity]))"
proof -
  have le: "unat (size_m v) \<le> unat new_capacity"
    using assms(2) by (simp add: word_le_nat_alt)
  have m: "min new_capacity (size_m v) = size_m v"
    using assms(2) by (simp add: min_def)
  have "std_copy (items_m v) 0 (unat (size_m v)) (map (fresh A) [0..<unat new_capacity]) 0 =
          Some (elems v @ drop (unat (size_m v)) (map (fresh A) [0..<unat new_capacity]))"
    using consistent_size_le [OF assms(1)] le by (simp add: std_copy_eq elems_def)
  then show ?thesis
    using assms(3) by (simp add: ReallocateCopy_def ArrayPtr_ok m)
qed

lemma ReallocateCopy_fails:
  "ReallocateCopy A new_capacity v = Throws e \<Longrightarrow> e = bad_alloc"
  by (auto simp: ReallocateCopy_def Let_def split: option.splits)

section \<open>Reserve\<close>

lemma Reserve_grows:
  assumes "consistent v" and "capacity_m v < n" and "avail A (unat n)"
  shows "Reserve A n v =
           Normal () (v\<lparr>items_m := elems v @ drop (unat (size_m v)) (map (fresh A) [0..<unat n]),
                        capacity_m := n\<rparr>)"
proof -
  have "size_m v \<le> capacity_m v"
    using assms(1) by (simp add: consistent_def)
  also have "\<dots> \<le> n"
    using assms(2) by simp
  finally show ?thesis
    using assms by (simp add: Reserve_def ReallocateCopy_ok)
qed

text \<open>
  C5: for every container, \<open>Reserve n\<close> with \<open>n\<close> above the capacity, when the allocator
  provides \<open>n\<close> slots, sets the capacity to \<open>n\<close> and keeps the size and the elements;
  with \<open>n\<close> at most the capacity it changes nothing. On the default-constructed container
  of \<^verbatim>\<open>int\<close>, \<open>Reserve 10\<close> gives size 0 and capacity 10, and \<open>PushBack 5\<close> after it
  gives size 1 and capacity 10, whatever the allocator would answer then.
\<close>

theorem Reserve_spec:
  fixes v :: "'a SimpleVector" and A :: "'a Allocator" and B B' :: "int Allocator"
  shows
  "(consistent v \<and> capacity_m v < n \<and> avail A (unat n) \<longrightarrow>
      (\<exists>v'. Reserve A n v = Normal () v' \<and> capacity_m v' = n \<and> size_m v' = size_m v \<and>
            elems v' = elems v \<and> consistent v')) \<and>
   (n \<le> capacity_m v \<longrightarrow> Reserve A n v = Normal () v) \<and>
   (avail B 10 \<longrightarrow>
      (\<exists>v1 v2. Reserve B 10 SimpleVector_default = Normal () v1 \<and>
          size_m v1 = 0 \<and> capacity_m v1 = 10 \<and>
          PushBack B' 5 v1 = Normal () v2 \<and>
          size_m v2 = 1 \<and> capacity_m v2 = 10 \<and> elems v2 = [5]))"
proof (intro conjI impI)
  assume a: "consistent v \<and> capacity_m v < n \<and> avail A (unat n)"
  then have le: "unat (size_m v) \<le> unat n" "unat (size_m v) \<le> length (items_m v)"
    by (simp_all add: consistent_def word_le_nat_alt word_less_nat_alt)
  show "\<exists>v'. Reserve A n v = Normal () v' \<and> capacity_m v' = n \<and> size_m v' = size_m v \<and>
            elems v' = elems v \<and> consistent v'"
    using a le by (simp add: Reserve_grows elems_def consistent_def word_le_nat_alt)
next
  assume "n \<le> capacity_m v"
  then show "Reserve A n v = Normal () v"
    by (simp add: Reserve_def not_less [symmetric])
next
  assume a: "avail B 10"
  define buf where "buf = map (fresh B) [0..<10]"
  have "length buf = 10"
    by (simp add: buf_def)
  then obtain x xs where buf: "buf = x # xs"
    by (cases buf) simp_all
  have c: "consistent (SimpleVector_default :: int SimpleVector)"
    by (simp add: consistent_def SimpleVector_default_def)
  have r: "Reserve B 10 SimpleVector_default = Normal () \<lparr>items_m = buf, size_m = 0, capacity_m = 10\<rparr>"
    using Reserve_grows [OF c, of 10 B] a
    by (simp add: SimpleVector_default_def elems_def buf_def)
  have p: "PushBack B' 5 \<lparr>items_m = buf, size_m = 0, capacity_m = 10\<rparr> =
      Normal () \<lparr>items_m = 5 # xs, size_m = 1, capacity_m = 10\<rparr>"
    by (simp add: PushBack_def buf)
  show "\<exists>v1 v2. Reserve B 10 SimpleVector_default = Normal () v1 \<and>
          size_m v1 = 0 \<and> capacity_m v1 = 10 \<and>
          PushBack B' 5 v1 = Normal () v2 \<and>
          size_m v2 = 1 \<and> capacity_m v2 = 10 \<and> elems v2 = [5]"
    by (simp add: r p elems_def)
qed

theorem Reserve_spec_witness:
  "consistent v123 \<and> capacity_m v123 < 5 \<and> avail plenty (unat (5 :: size_t)) \<and>
   (\<exists>w. Reserve plenty 5 v123 = Normal () w \<and> capacity_m w = 5 \<and> size_m w = 3 \<and>
         elems w = [1, 2, 3]) \<and>
   (2 :: size_t) \<le> capacity_m v123 \<and> Reserve plenty 2 v123 = Normal () v123 \<and>
   avail plenty 10 \<and>
   (\<exists>v1 v2. Reserve plenty 10 SimpleVector_default = Normal () v1 \<and>
      size_m v1 = 0 \<and> capacity_m v1 = 10 \<and>
      PushBack tight (5 :: int) v1 = Normal () v2 \<and>
      size_m v2 = 1 \<and> capacity_m v2 = 10 \<and> elems v2 = [5])"
proof -
  have h: "consistent v123 \<and> capacity_m v123 < 5 \<and> avail plenty (unat (5 :: size_t))"
    by (simp add: consistent_def v123_def plenty_def)
  have k: "(2 :: size_t) \<le> capacity_m v123"
    by (simp add: v123_def)
  have a: "avail plenty 10"
    by (simp add: plenty_def)
  have e: "elems v123 = [1, 2, 3]" "size_m v123 = 3"
    by (simp_all add: elems_def v123_def)
  show ?thesis
    using h k a Reserve_spec [of v123 5 plenty plenty tight]
      Reserve_spec [of v123 2 plenty plenty tight]
    by (auto simp: e)
qed

section \<open>Resize\<close>

lemma Resize_grows:
  assumes "consistent v" and "capacity_m v < n"
    and "avail A (unat (max (capacity_m v * 2) n))"
  shows "Resize A dflt n v =
           Normal () (v\<lparr>items_m := elems v @ replicate (unat n - unat (size_m v)) dflt
                                    @ drop (unat n) (map (fresh A) [0..<unat (max (capacity_m v * 2) n)]),
                        capacity_m := max (capacity_m v * 2) n,
                        size_m := n\<rparr>)"
proof -
  define nc where "nc = max (capacity_m v * 2) n"
  define new_items where "new_items = elems v @ drop (unat (size_m v)) (map (fresh A) [0..<unat nc])"
  have sc: "size_m v \<le> capacity_m v"
    using assms(1) by (simp add: consistent_def)
  have n_nc: "n \<le> nc"
    by (simp add: nc_def)
  have s_n: "size_m v \<le> n"
    using sc assms(2) by simp
  have s_nc: "size_m v \<le> nc"
    using s_n n_nc by (rule order_trans)
  have u: "unat (size_m v) \<le> unat n" "unat n \<le> unat nc" "unat (size_m v) \<le> length (items_m v)"
    using s_n n_nc consistent_size_le [OF assms(1)] by (simp_all add: word_le_nat_alt)
  have len: "length (elems v) = unat (size_m v)"
    using u by (simp add: elems_def)
  have r: "ReallocateCopy A nc v = Returns new_items"
    using assms(1,3) s_nc by (simp add: ReallocateCopy_ok nc_def new_items_def)
  have "std_fill new_items (unat (size_m v)) (unat n) dflt =
          Some (take (unat (size_m v)) new_items @ replicate (unat n - unat (size_m v)) dflt
                @ drop (unat n) new_items)"
    using u by (intro std_fill_eq) (simp_all add: new_items_def len)
  moreover have "take (unat (size_m v)) new_items = elems v"
    by (simp add: new_items_def len)
  moreover have "drop (unat n) new_items = drop (unat n) (map (fresh A) [0..<unat nc])"
    using u by (simp add: new_items_def len)
  ultimately have f: "std_fill new_items (unat (size_m v)) (unat n) dflt =
          Some (elems v @ replicate (unat n - unat (size_m v)) dflt
                @ drop (unat n) (map (fresh A) [0..<unat nc]))"
    by simp
  show ?thesis
    using assms(2) r f by (simp add: Resize_def nc_def [symmetric])
qed

text \<open>
  C3: for a consistent container of size \<open>s\<close> and capacity \<open>c\<close> and \<open>n > c\<close>, when the
  allocator provides the new buffer, \<open>Resize n\<close> returns with capacity
  \<^verbatim>\<open>max(c * 2, n)\<close> as the code computes it in \<^verbatim>\<open>size_t\<close> (and as a number whenever
  \<open>c * 2\<close> does not wrap), size \<open>n\<close>, the first \<open>s\<close> elements as before and the default
  value at every index in \<open>[s, n)\<close>.
\<close>

theorem Resize_grow_spec:
  assumes "consistent v" and "capacity_m v < n"
    and "avail A (unat (max (capacity_m v * 2) n))"
  shows "\<exists>w. Resize A dflt n v = Normal () w \<and>
           capacity_m w = max (capacity_m v * 2) n \<and>
           (unat (capacity_m v) * 2 < 2 ^ 64 \<longrightarrow>
              unat (capacity_m w) = max (unat (capacity_m v) * 2) (unat n)) \<and>
           size_m w = n \<and>
           take (unat (size_m v)) (elems w) = elems v \<and>
           (\<forall>i. unat (size_m v) \<le> i \<and> i < unat n \<longrightarrow> elems w ! i = dflt) \<and>
           elems w = elems v @ replicate (unat n - unat (size_m v)) dflt \<and>
           consistent w"
proof -
  define nc where "nc = max (capacity_m v * 2) n"
  define rest where "rest = drop (unat n) (map (fresh A) [0..<unat nc])"
  define w where "w = v\<lparr>items_m := elems v @ replicate (unat n - unat (size_m v)) dflt @ rest,
                          capacity_m := nc, size_m := n\<rparr>"
  have n_nc: "n \<le> nc"
    by (simp add: nc_def)
  have "size_m v \<le> capacity_m v"
    using assms(1) by (simp add: consistent_def)
  then have s_n: "size_m v \<le> n"
    using assms(2) by simp
  have u: "unat (size_m v) \<le> unat n" "unat n \<le> unat nc" "unat (size_m v) \<le> length (items_m v)"
    using s_n n_nc consistent_size_le [OF assms(1)] by (simp_all add: word_le_nat_alt)
  have len: "length (elems v) = unat (size_m v)"
    using u by (simp add: elems_def)
  have lr: "length rest = unat nc - unat n"
    by (simp add: rest_def)
  have run: "Resize A dflt n v = Normal () w"
    using Resize_grows [OF assms] by (simp add: w_def nc_def rest_def)
  have "elems w = take (unat n) (elems v @ replicate (unat n - unat (size_m v)) dflt @ rest)"
    by (subst elems_def) (simp add: w_def)
  then have el: "elems w = elems v @ replicate (unat n - unat (size_m v)) dflt"
    using u by (simp add: len)
  have nth: "elems w ! i = dflt" if "unat (size_m v) \<le> i" "i < unat n" for i
    using that by (simp add: el nth_append len)
  have nat_cap: "unat nc = max (unat (capacity_m v) * 2) (unat n)"
    if "unat (capacity_m v) * 2 < 2 ^ 64"
  proof -
    have "unat (capacity_m v * 2) = unat (capacity_m v) * 2"
      using that unat_mult_lem [of "capacity_m v" 2] by simp
    then show ?thesis
      by (simp add: nc_def max_def word_le_nat_alt)
  qed
  have cons: "consistent w"
    using u n_nc by (simp add: consistent_def w_def len lr)
  have "capacity_m w = nc" "size_m w = n"
    by (simp_all add: w_def)
  then show ?thesis
    using run el nth nat_cap cons len by (auto simp: nc_def)
qed

theorem Resize_grow_spec_witness:
  "consistent v123 \<and> capacity_m v123 < 5 \<and>
   avail plenty (unat (max (capacity_m v123 * 2) 5)) \<and>
   (\<exists>w. Resize plenty 0 5 v123 = Normal () w \<and> capacity_m w = 6 \<and> size_m w = 5 \<and>
         elems w = [1, 2, 3, 0, 0])"
proof -
  have c: "consistent v123"
    by (simp add: consistent_def v123_def)
  have l: "capacity_m v123 < 5"
    by (simp add: v123_def)
  have a: "avail plenty (unat (max (capacity_m v123 * 2) 5))"
    by (simp add: plenty_def)
  have e: "elems v123 = [1, 2, 3]" "size_m v123 = 3" "capacity_m v123 = 3"
    by (simp_all add: elems_def v123_def)
  have r: "replicate 2 (0 :: int) = [0, 0]"
    by (simp add: numeral_2_eq_2)
  show ?thesis
    using c l a Resize_grow_spec [OF c l a, of 0]
    by (auto simp: e r)
qed

section \<open>PushBack and PopBack\<close>







text \<open>
  C1: on \<open>{1,2,3}\<close>, full at capacity 3, with an allocator that cannot provide six slots,
  \<open>PushBack 4\<close> and \<open>Insert\<close> at position 1 both throw and leave \<^verbatim>\<open>capacity_ = 6\<close> over
  the old buffer of three slots, which is not a consistent state.
\<close>

theorem growth_not_atomic:
  "consistent v123 \<and>
   PushBack tight 4 v123 = Raised bad_alloc (v123\<lparr>capacity_m := 6\<rparr>) \<and>
   Insert tight 1 9 v123 = Raised bad_alloc (v123\<lparr>capacity_m := 6\<rparr>) \<and>
   \<not> consistent (v123\<lparr>capacity_m := 6\<rparr>)"
  by (simp add: consistent_def PushBack_def Insert_def ReallocateCopy_def ArrayPtr_def
      v123_def tight_def)

section \<open>What an exception leaves behind\<close>

text \<open>
  \<open>Reserve\<close>, \<open>Resize\<close> and copy assignment keep the new capacity in a local until the
  new buffer is complete: when they throw, the container is what it was.
\<close>

lemma Reserve_atomic: "Reserve A n v = Raised e v' \<Longrightarrow> v' = v \<and> e = bad_alloc"
  by (auto simp: Reserve_def dest: ReallocateCopy_fails split: if_splits result.splits)

lemma Resize_atomic: "Resize A dflt n v = Raised e v' \<Longrightarrow> v' = v \<and> e = bad_alloc"
  by (auto simp: Resize_def Let_def dest: ReallocateCopy_fails
      split: if_splits result.splits option.splits)

lemma SimpleVector_copy_empty: "IsEmpty other \<Longrightarrow> SimpleVector_copy A other \<noteq> Throws e"
  by (simp add: SimpleVector_copy_def IsEmpty_def ArrayPtr_def std_copy_def)

lemma copy_assign_atomic:
  assumes "copy_assign A this rhs \<sigma> = Raised e \<sigma>'"
  shows "\<sigma>' = \<sigma>"
proof (cases "IsEmpty (\<sigma> rhs)")
  case True
  have "rhs \<noteq> this"
    using assms by (auto simp: copy_assign_def)
  then have "SimpleVector_copy A ((\<sigma>(this := Clear (\<sigma> this))) rhs) \<noteq> Throws e'" for e'
    using True by (simp add: SimpleVector_copy_empty)
  then show ?thesis
    using assms True by (auto simp: copy_assign_def Let_def split: if_splits result.splits)
next
  case False
  then show ?thesis
    using assms by (auto simp: copy_assign_def Let_def split: if_splits result.splits)
qed

section \<open>Insert and Erase inside the buffer\<close>

text \<open>
  With spare capacity \<open>Insert\<close> shifts the tail one slot to the right, copying backwards,
  and writes the value into the freed slot.
\<close>

lemma Insert_in_place:
  assumes "consistent v" and "pos \<le> unat (size_m v)" and "size_m v < capacity_m v"
  shows "\<exists>v'. Insert A pos x v = Normal pos v' \<and> size_m v' = size_m v + 1 \<and>
               capacity_m v' = capacity_m v \<and>
               elems v' = take pos (elems v) @ x # drop pos (elems v)"
proof -
  define s where "s = unat (size_m v)"
  define buf where "buf = items_m v"
  have sl: "s < length buf" "pos \<le> s"
    using assms by (simp_all add: s_def buf_def consistent_def word_less_nat_alt)
  have nz: "size_m v + 1 \<noteq> 0" and le: "size_m v + 1 \<le> capacity_m v"
    using succ_below [OF assms(3)] by simp_all
  have s1: "unat (size_m v + 1) = Suc s"
    using nz by (simp add: unat_succ s_def)
  define shifted where
    "shifted = take (Suc pos) buf @ take (s - pos) (drop pos buf) @ drop (Suc s) buf"
  have sh: "std_copy_backward buf pos s (Suc s) = Some shifted"
    using sl by (simp add: std_copy_backward_eq shifted_def Suc_diff_le)
  have pl: "pos < length shifted"
    using sl by (simp add: shifted_def)
  have "take (Suc pos) buf = take pos buf @ [buf ! pos]"
    using sl by (simp add: take_Suc_conv_app_nth)
  then have upd: "shifted[pos := x] =
      take pos buf @ x # take (s - pos) (drop pos buf) @ drop (Suc s) buf"
    using sl by (simp add: shifted_def list_update_append)
  have run: "Insert A pos x v =
      Normal pos (v\<lparr>items_m := shifted[pos := x], size_m := size_m v + 1\<rparr>)"
    using assms(2) le sh pl by (simp add: Insert_def Let_def s_def buf_def)
  have "elems (v\<lparr>items_m := shifted[pos := x], size_m := size_m v + 1\<rparr>) =
      take (Suc s) (shifted[pos := x])"
    by (simp add: elems_def s1)
  also have "\<dots> = take pos buf @ x # take (s - pos) (drop pos buf)"
    using sl by (simp add: upd Suc_diff_le)
  also have "\<dots> = take pos (elems v) @ x # drop pos (elems v)"
    using sl by (simp add: elems_def s_def [symmetric] buf_def [symmetric] drop_take min_def)
  finally show ?thesis
    using run by simp
qed

lemma Insert_in_place_consistent:
  assumes "consistent v" and "pos \<le> unat (size_m v)" and "size_m v < capacity_m v"
    and "Insert A pos x v = Normal r v'"
  shows "consistent v'"
proof -
  have le: "size_m v + 1 \<le> capacity_m v"
    using succ_below [OF assms(3)] by simp
  have sl: "unat (size_m v) < length (items_m v)"
    using assms(1,3) by (simp add: consistent_def word_less_nat_alt)
  obtain shifted where sh:
      "std_copy_backward (items_m v) pos (unat (size_m v)) (unat (size_m v) + 1) = Some shifted"
      "length shifted = length (items_m v)"
    using assms(2) sl by (simp add: std_copy_backward_eq)
  have "v' = v\<lparr>items_m := shifted[pos := x], size_m := size_m v + 1\<rparr>"
    using assms(2,4) le sh sl by (auto simp: Insert_def Let_def split: if_splits)
  then show ?thesis
    using assms(1) le sh(2) by (simp add: consistent_def)
qed

text \<open>
  Without spare capacity \<open>Insert\<close> builds the new buffer from the prefix, the value and
  the suffix, when the allocator provides it.
\<close>

lemma Insert_grows:
  assumes "consistent v" and "pos \<le> unat (size_m v)" and "size_m v = capacity_m v"
    and "size_m v + 1 \<noteq> 0"
    and "avail A (unat (max (capacity_m v * 2) (size_m v + 1)))"
  shows "\<exists>v'. Insert A pos x v = Normal pos v' \<and> size_m v' = size_m v + 1 \<and>
               capacity_m v' = max (capacity_m v * 2) (size_m v + 1) \<and>
               elems v' = take pos (elems v) @ x # drop pos (elems v) \<and> consistent v'"
proof -
  define s where "s = unat (size_m v)"
  define buf where "buf = items_m v"
  define nc where "nc = max (capacity_m v * 2) (size_m v + 1)"
  define new where "new = map (fresh A) [0..<unat nc]"
  have lt: "capacity_m v < size_m v + 1"
    using less_succ [OF assms(4)] assms(3) by simp
  then have branch: "\<not> size_m v + 1 \<le> capacity_m v"
    by (simp add: not_le)
  have g: "size_m v + 1 \<le> nc"
    using grown_capacity [OF lt] by (simp add: nc_def)
  have s1: "unat (size_m v + 1) = Suc s"
    using assms(4) by (simp add: unat_succ s_def)
  have sn: "Suc s \<le> unat nc"
    using g by (simp add: word_le_nat_alt s1)
  have sl: "s \<le> length buf" "pos \<le> s"
    using assms(2) consistent_size_le [OF assms(1)] by (simp_all add: s_def buf_def)
  have ln: "length new = unat nc"
    by (simp add: new_def)
  have a: "ArrayPtr A (unat nc) = Some new"
    using assms(5) by (simp add: ArrayPtr_ok nc_def new_def)
  define items1 where "items1 = take pos buf @ drop pos new"
  have c1: "std_copy buf 0 pos new 0 = Some items1"
    using sl sn by (simp add: std_copy_eq items1_def ln)
  have l1: "pos < length items1"
    using sl sn by (simp add: items1_def ln)
  have "drop pos new = new ! pos # drop (Suc pos) new"
    using sl sn by (simp add: Cons_nth_drop_Suc ln)
  then have u1: "items1[pos := x] = take pos buf @ x # drop (Suc pos) new"
    using sl by (simp add: items1_def list_update_append)
  define items2 where
    "items2 = take pos buf @ x # take (s - pos) (drop pos buf) @ drop (Suc s) new"
  have "take (Suc pos) (items1[pos := x]) = take pos buf @ [x]"
    using sl by (simp add: u1)
  moreover have "drop (Suc s) (items1[pos := x]) = drop (Suc s) new"
    using sl by (simp add: u1 Suc_diff_le)
  moreover have "std_copy buf pos s (items1[pos := x]) (pos + 1) =
      Some (take (pos + 1) (items1[pos := x]) @ take (s - pos) (drop pos buf)
            @ drop (pos + 1 + (s - pos)) (items1[pos := x]))"
    using sl sn by (intro std_copy_eq) (simp_all add: items1_def ln)
  ultimately have c2: "std_copy buf pos s (items1[pos := x]) (pos + 1) = Some items2"
    using sl by (simp add: items2_def)
  have run: "Insert A pos x v =
      Normal pos (v\<lparr>capacity_m := nc, items_m := items2, size_m := size_m v + 1\<rparr>)"
    using assms(2) branch a c1 l1 c2
    by (simp add: Insert_def Let_def s_def buf_def nc_def)
  have l2: "length items2 = unat nc"
    using sl sn by (simp add: items2_def ln)
  have "elems (v\<lparr>capacity_m := nc, items_m := items2, size_m := size_m v + 1\<rparr>) =
      take (Suc s) items2"
    by (simp add: elems_def s1)
  also have "\<dots> = take pos buf @ x # take (s - pos) (drop pos buf)"
    using sl by (simp add: items2_def Suc_diff_le)
  also have "\<dots> = take pos (elems v) @ x # drop pos (elems v)"
    using sl by (simp add: elems_def s_def [symmetric] buf_def [symmetric] drop_take min_def)
  finally have el: "elems (v\<lparr>capacity_m := nc, items_m := items2, size_m := size_m v + 1\<rparr>) =
      take pos (elems v) @ x # drop pos (elems v)" .
  have "consistent (v\<lparr>capacity_m := nc, items_m := items2, size_m := size_m v + 1\<rparr>)"
    using g by (simp add: consistent_def l2)
  then show ?thesis
    using run el by (simp add: nc_def)
qed

text \<open>\<open>Erase\<close> shifts the tail one slot to the left, copying forwards.\<close>

lemma Erase_elems:
  assumes "consistent v" and "pos < unat (size_m v)"
  shows "\<exists>v'. Erase pos v = Normal pos v' \<and> size_m v' = size_m v - 1 \<and>
               capacity_m v' = capacity_m v \<and>
               elems v' = take pos (elems v) @ drop (Suc pos) (elems v)"
proof -
  define s where "s = unat (size_m v)"
  define buf where "buf = items_m v"
  have sl: "s \<le> length buf" "pos < s"
    using assms consistent_size_le [OF assms(1)] by (simp_all add: s_def buf_def)
  have "size_m v \<noteq> 0"
    using assms(2) by auto
  then have s1: "unat (size_m v - 1) = s - 1"
    by (simp add: unat_minus_one s_def)
  define shifted where
    "shifted = take pos buf @ take (s - Suc pos) (drop (Suc pos) buf) @ drop (s - 1) buf"
  have "pos + (s - Suc pos) = s - 1"
    using sl by simp
  then have sh: "std_move_within buf (pos + 1) s pos = Some shifted"
    using sl by (simp add: std_move_within_eq shifted_def)
  have run: "Erase pos v = Normal pos (v\<lparr>items_m := shifted, size_m := size_m v - 1\<rparr>)"
    using assms(2) sh by (simp add: Erase_def Let_def s_def buf_def)
  have "elems (v\<lparr>items_m := shifted, size_m := size_m v - 1\<rparr>) = take (s - 1) shifted"
    by (simp add: elems_def s1)
  also have "\<dots> = take pos buf @ take (s - Suc pos) (drop (Suc pos) buf)"
    using sl by (simp add: shifted_def)
  also have "\<dots> = take pos (elems v) @ drop (Suc pos) (elems v)"
    using sl by (simp add: elems_def s_def [symmetric] buf_def [symmetric] drop_take min_def)
  finally show ?thesis
    using run by simp
qed

section \<open>Insert and Erase on \<open>{1,2,3}\<close>\<close>

lemma Insert_Erase_three:
  assumes "consistent v" and "elems v = [a, b, c]"
    and "size_m v < capacity_m v \<or> avail A 6"
  shows "\<exists>v1 v2. Insert A (Suc 0) x v = Normal (Suc 0) v1 \<and> elems v1 = [a, x, b, c] \<and>
           size_m v1 = 4 \<and>
           Erase 0 v1 = Normal 0 v2 \<and> elems v2 = [x, b, c] \<and> size_m v2 = 3"
proof -
  have "length (elems v) = unat (size_m v)"
    using consistent_size_le [OF assms(1)] by (simp add: elems_def)
  then have u: "unat (size_m v) = 3"
    by (simp add: assms(2))
  then have "unat (size_m v) = unat (3 :: size_t)"
    by simp
  then have s: "size_m v = 3"
    by (simp only: word_unat_eq_iff)
  have pos: "Suc 0 \<le> unat (size_m v)"
    by (simp add: u)
  have ins: "\<exists>v1. Insert A (Suc 0) x v = Normal (Suc 0) v1 \<and> size_m v1 = size_m v + 1 \<and>
               elems v1 = take (Suc 0) (elems v) @ x # drop (Suc 0) (elems v) \<and> consistent v1"
  proof (cases "size_m v < capacity_m v")
    case True
    obtain v1 where v1: "Insert A (Suc 0) x v = Normal (Suc 0) v1" "size_m v1 = size_m v + 1"
        "elems v1 = take (Suc 0) (elems v) @ x # drop (Suc 0) (elems v)"
      using Insert_in_place [OF assms(1) pos True, of A x] by blast
    have "consistent v1"
      using Insert_in_place_consistent [OF assms(1) pos True v1(1)] .
    then show ?thesis
      using v1 by blast
  next
    case False
    then have full: "size_m v = capacity_m v"
      using assms(1) by (auto simp: consistent_def word_le_less_eq)
    have nz: "size_m v + 1 \<noteq> 0"
      by (simp add: s)
    have "max (capacity_m v * 2) (size_m v + 1) = 6"
      by (simp add: full [symmetric] s)
    then have av: "avail A (unat (max (capacity_m v * 2) (size_m v + 1)))"
      using assms(3) False by simp
    show ?thesis
      using Insert_grows [OF assms(1) pos full nz av, of x] by blast
  qed
  then obtain v1 where v1: "Insert A (Suc 0) x v = Normal (Suc 0) v1" "size_m v1 = 4"
      "elems v1 = [a, x, b, c]" "consistent v1"
    by (auto simp: assms(2) s)
  have "0 < unat (size_m v1)"
    by (simp add: v1(2))
  from Erase_elems [OF v1(4) this]
  obtain v2 where "Erase 0 v1 = Normal 0 v2" "size_m v2 = 3" "elems v2 = [x, b, c]"
    by (auto simp: v1(2,3))
  then show ?thesis
    using v1 by blast
qed

text \<open>
  C4: on every consistent container that holds \<open>{1,2,3}\<close>, with spare capacity or with
  the allocator providing the six slots of the doubled buffer, \<open>Insert\<close> at position 1 of
  the value 9 returns position 1 and leaves \<open>{1,9,2,3}\<close> with size 4; \<open>Erase\<close> at
  position 0 of that container returns position 0 and leaves \<open>{9,2,3}\<close> with size 3.
\<close>

theorem Insert_Erase_scenario:
  fixes v :: "('a::numeral) SimpleVector"
  assumes "consistent v" and "elems v = [1, 2, 3]"
    and "size_m v < capacity_m v \<or> avail A 6"
  shows "\<exists>v1 v2. Insert A 1 9 v = Normal 1 v1 \<and> elems v1 = [1, 9, 2, 3] \<and> size_m v1 = 4 \<and>
           Erase 0 v1 = Normal 0 v2 \<and> elems v2 = [9, 2, 3] \<and> size_m v2 = 3"
  using Insert_Erase_three [OF assms, of 9] by simp

text \<open>
  The witness takes both branches: \<open>{1,2,3}\<close> at capacity 3 grows to six slots, and
  \<open>{1,2,3}\<close> at capacity 4 is shifted in place, with an allocator that has no six slots.
\<close>

theorem Insert_Erase_scenario_witness:
  "consistent v123 \<and> elems v123 = [1, 2, 3] \<and>
   (size_m v123 < capacity_m v123 \<or> avail plenty 6) \<and>
   (\<exists>v1 v2. Insert plenty 1 9 v123 = Normal 1 v1 \<and> elems v1 = [1, 9, 2, 3] \<and> size_m v1 = 4 \<and>
      Erase 0 v1 = Normal 0 v2 \<and> elems v2 = [9, 2, 3] \<and> size_m v2 = 3) \<and>
   consistent \<lparr>items_m = [1, 2, 3, 0 :: int], size_m = 3, capacity_m = 4\<rparr> \<and>
   elems \<lparr>items_m = [1, 2, 3, 0 :: int], size_m = 3, capacity_m = 4\<rparr> = [1, 2, 3] \<and>
   \<not> avail tight 6 \<and>
   (\<exists>v1 v2. Insert tight 1 9 \<lparr>items_m = [1, 2, 3, 0 :: int], size_m = 3, capacity_m = 4\<rparr>
               = Normal 1 v1 \<and> elems v1 = [1, 9, 2, 3] \<and> size_m v1 = 4 \<and>
      Erase 0 v1 = Normal 0 v2 \<and> elems v2 = [9, 2, 3] \<and> size_m v2 = 3)"
proof -
  have c: "consistent v123" and e: "elems v123 = [1, 2, 3]"
    and a: "size_m v123 < capacity_m v123 \<or> avail plenty 6"
    by (simp_all add: consistent_def elems_def v123_def plenty_def)
  have c': "consistent \<lparr>items_m = [1, 2, 3, 0 :: int], size_m = 3, capacity_m = 4\<rparr>"
    and e': "elems \<lparr>items_m = [1, 2, 3, 0 :: int], size_m = 3, capacity_m = 4\<rparr> = [1, 2, 3]"
    and a': "size_m \<lparr>items_m = [1, 2, 3, 0 :: int], size_m = 3, capacity_m = 4\<rparr>
               < capacity_m \<lparr>items_m = [1, 2, 3, 0 :: int], size_m = 3, capacity_m = 4\<rparr>
             \<or> avail tight 6"
    by (simp_all add: consistent_def elems_def)
  have t: "\<not> avail tight 6"
    by (simp add: tight_def)
  show ?thesis
    using c e a c' e' t Insert_Erase_scenario [OF c e a] Insert_Erase_scenario [OF c' e' a']
    by simp
qed

text \<open>The list constructor; the container \<open>{1,2,3}\<close> of the scenario is what it builds.\<close>

lemma SimpleVector_init_ok:
  assumes "avail A (length init)"
  shows "SimpleVector_init A init =
           Returns \<lparr>items_m = init, size_m = of_nat (length init),
                    capacity_m = of_nat (length init)\<rparr>"
proof -
  have "std_copy init 0 (length init) (map (fresh A) [0..<length init]) 0 = Some init"
    by (simp add: std_copy_eq)
  then show ?thesis
    using assms by (simp add: SimpleVector_init_def ArrayPtr_ok)
qed

lemma SimpleVector_init_123:
  assumes "avail A 3"
  shows "SimpleVector_init A [1, 2, 3] = Returns v123"
proof -
  have "avail A (length [1, 2, 3 :: int])"
    using assms by (simp add: numeral_3_eq_3)
  from SimpleVector_init_ok [OF this] show ?thesis
    by (simp add: v123_def)
qed

section \<open>Capacity along a sequence of calls\<close>

text \<open>
  C2, as stated, fails for copy assignment: assigning \<open>{7}\<close> to \<open>{1,2,3}\<close> leaves the
  target with capacity 1, below its capacity 3 before.
\<close>

theorem copy_assign_shrinks:
  "copy_assign plenty 0 1 two_vectors = Normal () (two_vectors(0 := v7)) \<and>
   capacity_m ((two_vectors(0 := v7)) 0) < capacity_m (two_vectors 0)"
proof -
  have "SimpleVector_copy plenty v7 = Returns v7"
    by (simp add: SimpleVector_copy_def ArrayPtr_def std_copy_eq v7_def plenty_def)
  then show ?thesis
    by (simp add: copy_assign_def two_vectors_def IsEmpty_def swap_def v7_def v123_def)
qed

lemma Reserve_capacity:
  "Reserve A n v = Normal r v' \<or> Reserve A n v = Raised e v' \<Longrightarrow> capacity_m v \<le> capacity_m v'"
  by (auto simp: Reserve_def split: if_splits result.splits)

lemma Resize_capacity:
  "Resize A dflt n v = Normal r v' \<or> Resize A dflt n v = Raised e v' \<Longrightarrow>
   capacity_m v \<le> capacity_m v'"
  using grown_capacity [of "capacity_m v" n]
  by (auto simp: Resize_def Let_def split: if_splits result.splits option.splits)

lemma PushBack_capacity:
  "PushBack A x v = Normal r v' \<or> PushBack A x v = Raised e v' \<Longrightarrow>
   capacity_m v \<le> capacity_m v'"
  using grown_capacity [of "capacity_m v" "size_m v + 1"]
  by (auto simp: PushBack_def Let_def split: if_splits result.splits)

lemma Insert_capacity:
  "Insert A pos x v = Normal r v' \<or> Insert A pos x v = Raised e v' \<Longrightarrow>
   capacity_m v \<le> capacity_m v'"
  using grown_capacity [of "capacity_m v" "size_m v + 1"]
  by (auto simp: Insert_def Let_def not_le split: if_splits option.splits)

lemma Erase_capacity:
  "Erase pos v = Normal r v' \<or> Erase pos v = Raised e v' \<Longrightarrow> capacity_m v \<le> capacity_m v'"
  by (auto simp: Erase_def Let_def split: if_splits option.splits)

lemma PopBack_capacity:
  "PopBack v = Normal r v' \<or> PopBack v = Raised e v' \<Longrightarrow> capacity_m v \<le> capacity_m v'"
  by (auto simp: PopBack_def split: if_splits)

lemma mutate_capacity:
  assumes "mutate A dflt m v = Normal r v' \<or> mutate A dflt m v = Raised e v'"
  shows "capacity_m v \<le> capacity_m v'"
proof (cases m)
  case (Reserve_call n)
  then show ?thesis using assms Reserve_capacity [of A n v r v' e] by simp
next
  case (Resize_call n)
  then show ?thesis using assms Resize_capacity [of A dflt n v r v' e] by simp
next
  case Clear_call
  then show ?thesis using assms by (auto simp: Clear_def)
next
  case (PushBack_call x)
  then show ?thesis using assms PushBack_capacity [of A x v r v' e] by simp
next
  case (Insert_call pos x)
  then show ?thesis
    using assms Insert_capacity [of A pos x v _ v' e] by (auto split: outcome.splits)
next
  case (Erase_call pos)
  then show ?thesis
    using assms Erase_capacity [of pos v _ v' e] by (auto split: outcome.splits)
next
  case PopBack_call
  then show ?thesis using assms PopBack_capacity [of v r v' e] by simp
qed

lemma capacities_head: "\<exists>cs. capacities dflt ms v = capacity_m v # cs"
  by (cases ms) auto

text \<open>
  C2, amended: along every sequence of calls of \<open>Reserve\<close>, \<open>Resize\<close>, \<open>Clear\<close>,
  \<open>PushBack\<close>, \<open>Insert\<close>, \<open>Erase\<close> and \<open>PopBack\<close> on any container, the capacity
  observed after each call, whether it returns or throws, is at least the capacity
  observed before it.
\<close>

theorem capacity_never_decreases:
  "sorted (capacities dflt ms v)"
proof (induction ms arbitrary: v)
  case Nil
  show ?case by simp
next
  case (Cons am ms)
  obtain A m where am: "am = (A, m)"
    by (cases am)
  show ?case
  proof (cases "mutate A dflt m v")
    case (Normal r v')
    obtain cs where cs: "capacities dflt ms v' = capacity_m v' # cs"
      using capacities_head [of dflt ms v'] by blast
    have "capacity_m v \<le> capacity_m v'"
      using mutate_capacity [of A dflt m v r v'] Normal by simp
    moreover have "sorted (capacity_m v' # cs)"
      using Cons.IH [of v'] cs by simp
    ultimately have "sorted (capacity_m v # capacity_m v' # cs)"
      by (auto intro: order_trans)
    then show ?thesis
      by (simp only: am capacities.simps Normal outcome.case cs)
  next
    case (Raised e v')
    have "capacity_m v \<le> capacity_m v'"
      using mutate_capacity [of A dflt m v _ v' e] Raised by simp
    then show ?thesis
      by (simp add: am Raised)
  next
    case Undefined
    then show ?thesis
      by (simp add: am)
  qed
qed

theorem capacity_never_decreases_witness:
  "capacities 0 [(plenty, PushBack_call 4), (plenty, PopBack_call), (tight, Resize_call 2),
                 (plenty, Insert_call 0 5), (tight, Reserve_call 20)] v123 = [3, 6, 6, 6, 6, 6] \<and>
   sorted [3, 6, 6, 6, 6, 6 :: size_t]"
proof -
  have "capacities 0 [(plenty, PushBack_call 4), (plenty, PopBack_call), (tight, Resize_call 2),
                 (plenty, Insert_call 0 5), (tight, Reserve_call 20)] v123 = [3, 6, 6, 6, 6, 6]"
    by code_simp
  then show ?thesis
    using capacity_never_decreases [of 0 "[(plenty, PushBack_call 4), (plenty, PopBack_call),
      (tight, Resize_call 2), (plenty, Insert_call 0 5), (tight, Reserve_call 20)]" v123]
    by simp
qed

end
